theory Spec2Isabelle
  imports Main
begin

section \<open>Values\<close>

text \<open>
  The messaging core of the backend: \<^verbatim>\<open>backend/core/utils/encryption.py\<close> (the cipher) and
  \<^verbatim>\<open>backend/core/services/chat/chat_service.py\<close> (class \<^verbatim>\<open>ChatService\<close>).

  A Python \<^verbatim>\<open>UUID\<close> is compared through its 128-bit integer value, so identifiers are
  natural numbers; \<^verbatim>\<open>str(uuid)\<close>, which the code sends to the store, is the canonical
  (injective) text form, so equality of the text forms is equality of the identifiers.
  A Python \<^verbatim>\<open>str\<close> is a list of code points, a \<^verbatim>\<open>bytes\<close> value a list of byte
  values (each below 256). A timestamp is a point on the store's clock.
\<close>

type_synonym uuid = nat
type_synonym pystr = "nat list"
type_synonym bytes = "nat list"
type_synonym timestamp = nat

text \<open>
  The exceptions the two modules raise. \<open>ValueError\<close> also stands for its subclasses
  \<^verbatim>\<open>UnicodeEncodeError\<close> and \<^verbatim>\<open>UnicodeDecodeError\<close>; \<open>Exception\<close> is the bare
  \<^verbatim>\<open>Exception\<close> the handlers raise, with the fixed prefix of its message.
\<close>

datatype error =
    InvalidParticipantError
  | ConversationNotFoundError
  | UnauthorizedError
  | ValueError
  | Exception string


section \<open>Python strings\<close>

text \<open>The code points \<^verbatim>\<open>str.strip()\<close> removes (those for which \<^verbatim>\<open>str.isspace\<close> holds).\<close>

definition py_isspace :: "nat \<Rightarrow> bool" where
  "py_isspace c \<longleftrightarrow>
     (0x09 \<le> c \<and> c \<le> 0x0D) \<or> (0x1C \<le> c \<and> c \<le> 0x20) \<or> c = 0x85 \<or> c = 0xA0 \<or>
     c = 0x1680 \<or> (0x2000 \<le> c \<and> c \<le> 0x200A) \<or> c = 0x2028 \<or> c = 0x2029 \<or>
     c = 0x202F \<or> c = 0x205F \<or> c = 0x3000"

definition strip :: "pystr \<Rightarrow> pystr" where
  "strip s = rev (dropWhile py_isspace (rev (dropWhile py_isspace s)))"

text \<open>
  \<^verbatim>\<open>s.encode("utf-8")\<close>: \<open>None\<close> is \<^verbatim>\<open>UnicodeEncodeError\<close>, raised on a lone surrogate.
\<close>

definition utf8_encode_cp :: "nat \<Rightarrow> bytes option" where
  "utf8_encode_cp c =
     (if c < 0x80 then Some [c]
      else if c < 0x800 then Some [0xC0 + c div 64, 0x80 + c mod 64]
      else if c < 0x10000 then
        (if 0xD800 \<le> c \<and> c \<le> 0xDFFF then None
         else Some [0xE0 + c div 4096, 0x80 + c div 64 mod 64, 0x80 + c mod 64])
      else if c < 0x110000 then
        Some [0xF0 + c div 262144, 0x80 + c div 4096 mod 64, 0x80 + c div 64 mod 64,
              0x80 + c mod 64]
      else None)"

fun utf8_encode :: "pystr \<Rightarrow> bytes option" where
  "utf8_encode [] = Some []"
| "utf8_encode (c # cs) =
     (case utf8_encode_cp c of
        None \<Rightarrow> None
      | Some bs \<Rightarrow> (case utf8_encode cs of None \<Rightarrow> None | Some r \<Rightarrow> Some (bs @ r)))"

text \<open>
  \<^verbatim>\<open>b.decode("utf-8")\<close>, strict: \<open>None\<close> is \<^verbatim>\<open>UnicodeDecodeError\<close> (a bad lead or
  continuation byte, an overlong form, a surrogate, a value above 0x10FFFF, a cut sequence).
\<close>

definition is_cont :: "nat \<Rightarrow> bool" where
  "is_cont b \<longleftrightarrow> 0x80 \<le> b \<and> b \<le> 0xBF"

definition seq_len :: "nat \<Rightarrow> nat" where
  "seq_len b0 =
     (if b0 < 0x80 then 1
      else if 0xC2 \<le> b0 \<and> b0 \<le> 0xDF then 2
      else if 0xE0 \<le> b0 \<and> b0 \<le> 0xEF then 3
      else if 0xF0 \<le> b0 \<and> b0 \<le> 0xF4 then 4
      else 0)"

definition scalar2 :: "nat \<Rightarrow> nat \<Rightarrow> nat option" where
  "scalar2 b0 b1 =
     (if is_cont b1 then Some ((b0 - 0xC0) * 64 + (b1 - 0x80)) else None)"

definition scalar3 :: "nat \<Rightarrow> nat \<Rightarrow> nat \<Rightarrow> nat option" where
  "scalar3 b0 b1 b2 =
     (let c = (b0 - 0xE0) * 4096 + (b1 - 0x80) * 64 + (b2 - 0x80)
      in if is_cont b1 \<and> is_cont b2 \<and> 0x800 \<le> c \<and> \<not> (0xD800 \<le> c \<and> c \<le> 0xDFFF)
         then Some c else None)"

definition scalar4 :: "nat \<Rightarrow> nat \<Rightarrow> nat \<Rightarrow> nat \<Rightarrow> nat option" where
  "scalar4 b0 b1 b2 b3 =
     (let c = (b0 - 0xF0) * 262144 + (b1 - 0x80) * 4096 + (b2 - 0x80) * 64 + (b3 - 0x80)
      in if is_cont b1 \<and> is_cont b2 \<and> is_cont b3 \<and> 0x10000 \<le> c \<and> c < 0x110000
         then Some c else None)"

fun utf8_decode_cp :: "bytes \<Rightarrow> (nat \<times> bytes) option" where
  "utf8_decode_cp [] = None"
| "utf8_decode_cp (b0 # rest) =
     (if seq_len b0 = 1 then Some (b0, rest)
      else if seq_len b0 = 2 then
        (case rest of
           b1 # r \<Rightarrow> map_option (\<lambda>c. (c, r)) (scalar2 b0 b1)
         | _ \<Rightarrow> None)
      else if seq_len b0 = 3 then
        (case rest of
           b1 # b2 # r \<Rightarrow> map_option (\<lambda>c. (c, r)) (scalar3 b0 b1 b2)
         | _ \<Rightarrow> None)
      else if seq_len b0 = 4 then
        (case rest of
           b1 # b2 # b3 # r \<Rightarrow> map_option (\<lambda>c. (c, r)) (scalar4 b0 b1 b2 b3)
         | _ \<Rightarrow> None)
      else None)"

lemma utf8_decode_cp_shorter: "utf8_decode_cp bs = Some (c, r) \<Longrightarrow> length r < length bs"
  by (cases bs) (auto split: list.splits if_splits)

function utf8_decode :: "bytes \<Rightarrow> pystr option" where
  "utf8_decode bs =
     (if bs = [] then Some []
      else case utf8_decode_cp bs of
             None \<Rightarrow> None
           | Some (c, r) \<Rightarrow> map_option ((#) c) (utf8_decode r))"
  by pat_completeness auto
termination
  by (relation "measure length") (auto simp: utf8_decode_cp_shorter)

declare utf8_decode.simps [simp del]

text \<open>\<^verbatim>\<open>needle in haystack\<close> on strings: the needle occurs as a contiguous block.\<close>

fun starts_with :: "pystr \<Rightarrow> pystr \<Rightarrow> bool" where
  "starts_with [] hay = True"
| "starts_with (n # ns) [] = False"
| "starts_with (n # ns) (h # hs) = (n = h \<and> starts_with ns hs)"

fun str_contains :: "pystr \<Rightarrow> pystr \<Rightarrow> bool" where
  "str_contains needle [] = (needle = [])"
| "str_contains needle (h # hs) = (starts_with needle (h # hs) \<or> str_contains needle hs)"


section \<open>What lies outside the repository\<close>

text \<open>
  The cipher is built on the \<^verbatim>\<open>cryptography\<close> package and on \<^verbatim>\<open>settings.SECRET_KEY\<close>;
  neither is code of the repository, so they are parameters of the model:
  \<^item> \<open>SECRET_KEY\<close>: the configured secret;
  \<^item> \<open>kdf\<close>: \<^verbatim>\<open>base64.urlsafe_b64encode(PBKDF2HMAC(SHA256, 32, salt, 100000).derive(pw))\<close>
    with the fixed salt of \<^verbatim>\<open>_get_fernet_key\<close>;
  \<^item> \<open>fernet_encrypt key nonce data\<close>: \<^verbatim>\<open>Fernet(key).encrypt(data)\<close>, where \<open>nonce\<close> is
    the random IV and the clock reading that the library draws;
  \<^item> \<open>fernet_decrypt key token\<close>: \<^verbatim>\<open>Fernet(key).decrypt(token)\<close>, \<open>None\<close> being
    \<^verbatim>\<open>InvalidToken\<close>;
  \<^item> \<open>str_lower\<close>: \<^verbatim>\<open>str.lower\<close> (the Unicode case mapping).
\<close>

record extern =
  SECRET_KEY :: pystr
  kdf :: "bytes \<Rightarrow> bytes"
  fernet_encrypt :: "bytes \<Rightarrow> bytes \<Rightarrow> bytes \<Rightarrow> bytes"
  fernet_decrypt :: "bytes \<Rightarrow> bytes \<Rightarrow> bytes option"
  str_lower :: "pystr \<Rightarrow> pystr"

text \<open>
  What Fernet promises at one key, nonce and data: the token is not empty, it is URL-safe
  base64 text (ASCII), and it decrypts under the same key to the data.
\<close>

definition fernet_ok :: "extern \<Rightarrow> bytes \<Rightarrow> bytes \<Rightarrow> bytes \<Rightarrow> bool" where
  "fernet_ok X k n d \<longleftrightarrow>
     (let t = fernet_encrypt X k n d
      in t \<noteq> [] \<and> list_all (\<lambda>b. b < 0x80) t \<and> fernet_decrypt X k t = Some d)"

text \<open>
  A toy instance, used only to run the model on concrete inputs: the key derivation is the
  identity, a token is the letter \<^verbatim>\<open>g\<close> followed by the data reversed, and lower-casing
  covers ASCII.
\<close>

definition demo_extern :: extern where
  "demo_extern =
     \<lparr> SECRET_KEY = [0x6B, 0x65, 0x79],
       kdf = (\<lambda>pw. pw),
       fernet_encrypt = (\<lambda>k n d. 0x67 # rev d),
       fernet_decrypt = (\<lambda>k t. case t of [] \<Rightarrow> None
                                   | b # r \<Rightarrow> if b = 0x67 then Some (rev r) else None),
       str_lower = map (\<lambda>c. if 0x41 \<le> c \<and> c \<le> 0x5A then c + 0x20 else c) \<rparr>"


section \<open>The cipher: \<^verbatim>\<open>encryption.py\<close>\<close>

text \<open>
  \<^verbatim>\<open>_get_fernet_key(password)\<close>: the settings' secret when no password is given;
  \<^verbatim>\<open>password.encode()\<close> may raise \<^verbatim>\<open>UnicodeEncodeError\<close>.
\<close>

definition get_fernet_key :: "extern \<Rightarrow> pystr option \<Rightarrow> error + bytes" where
  "get_fernet_key X password =
     (let pw = (case password of None \<Rightarrow> SECRET_KEY X | Some p \<Rightarrow> p)
      in case utf8_encode pw of
           None \<Rightarrow> Inl ValueError
         | Some b \<Rightarrow> Inr (kdf X b))"

text \<open>
  \<^verbatim>\<open>encrypt_message(content, key)\<close>. The guard rejects empty and whitespace-only content
  with \<^verbatim>\<open>ValueError\<close>; inside the \<^verbatim>\<open>try\<close>, a \<^verbatim>\<open>ValueError\<close> is re-raised as it is.
\<close>

definition encrypt_message :: "extern \<Rightarrow> bytes \<Rightarrow> pystr \<Rightarrow> pystr option \<Rightarrow> error + pystr" where
  "encrypt_message X nonce content key =
     (if content = [] \<or> strip content = [] then Inl ValueError
      else case get_fernet_key X key of
             Inl e \<Rightarrow> Inl e
           | Inr fernet_key \<Rightarrow>
               (case utf8_encode content of
                  None \<Rightarrow> Inl ValueError
                | Some data \<Rightarrow>
                    (case utf8_decode (fernet_encrypt X fernet_key nonce data) of
                       None \<Rightarrow> Inl ValueError
                     | Some token \<Rightarrow> Inr token)))"

text \<open>
  \<^verbatim>\<open>decrypt_message(encrypted_content, key)\<close>. \<^verbatim>\<open>InvalidToken\<close> is not a
  \<^verbatim>\<open>ValueError\<close>, so it leaves as \<^verbatim>\<open>Exception("Decryption failed: ...")\<close>.
\<close>

definition decrypt_message :: "extern \<Rightarrow> pystr \<Rightarrow> pystr option \<Rightarrow> error + pystr" where
  "decrypt_message X encrypted_content key =
     (if encrypted_content = [] then Inl ValueError
      else case get_fernet_key X key of
             Inl e \<Rightarrow> Inl e
           | Inr fernet_key \<Rightarrow>
               (case utf8_encode encrypted_content of
                  None \<Rightarrow> Inl ValueError
                | Some token \<Rightarrow>
                    (case fernet_decrypt X fernet_key token of
                       None \<Rightarrow> Inl (Exception ''Decryption failed'')
                     | Some data \<Rightarrow>
                         (case utf8_decode data of
                            None \<Rightarrow> Inl ValueError
                          | Some s \<Rightarrow> Inr s))))"


section \<open>The relational store\<close>

text \<open>
  The tables \<^verbatim>\<open>conversations\<close> and \<^verbatim>\<open>messages\<close>, as the service reads and writes them.
  The joined profile columns (name, picture, university) only decorate responses and are
  left out; a foreign key guarantees that the joined profile of a stored row exists.
\<close>

record conversation_row =
  conv_id :: uuid
  participant_1_id :: uuid
  participant_2_id :: uuid
  last_message_at :: timestamp
  conv_created_at :: timestamp

record message_row =
  msg_id :: uuid
  conversation_id :: uuid
  sender_id :: uuid
  content_encrypted :: pystr
  is_read :: bool
  created_at :: timestamp

text \<open>Each request the service sends to the store, in the order sent.\<close>

datatype store_call =
    SelectConversationByPair uuid uuid
  | InsertConversation uuid uuid
  | SelectConversationById uuid
  | SelectConversationsByParticipant1 uuid
  | SelectConversationsByParticipant2 uuid
  | InsertMessage uuid uuid pystr
  | CountMessages uuid
  | SelectMessagesPage uuid int int
  | SelectMessages uuid
  | SelectMessageById uuid
  | UpdateMessageRead uuid
  | SelectProfile uuid

record store =
  conversations :: "conversation_row list"
  messages :: "message_row list"
  calls :: "store_call list"

text \<open>The column values the store itself supplies on an insert: the new key and the time.\<close>

record generated =
  new_id :: uuid
  now :: timestamp

datatype store_error = UniqueViolation | CheckViolation

definition called :: "store_call \<Rightarrow> store \<Rightarrow> store" where
  "called c s = s\<lparr>calls := calls s @ [c]\<rparr>"

text \<open>
  Modelled from the spec: the store is an external collaborator (no schema or client code
  of it is in the repository). Section 6 of the spec gives the two tables, a uniqueness
  constraint on the participant pair, and row-based select, insert and update with equality
  filters, ordering and offset/limit; the docstring of \<^verbatim>\<open>get_or_create_conversation\<close>
  names the check constraint \<^verbatim>\<open>participant_1_id < participant_2_id\<close>. A select without an
  order returns rows in table order; keys are unique; the read flag defaults to false.
\<close>

definition select_conversation_by_pair ::
  "uuid \<Rightarrow> uuid \<Rightarrow> store \<Rightarrow> conversation_row list \<times> store" where
  "select_conversation_by_pair p1 p2 s =
     (filter (\<lambda>c. participant_1_id c = p1 \<and> participant_2_id c = p2) (conversations s),
      called (SelectConversationByPair p1 p2) s)"

definition select_conversation_by_id :: "uuid \<Rightarrow> store \<Rightarrow> conversation_row list \<times> store" where
  "select_conversation_by_id cid s =
     (filter (\<lambda>c. conv_id c = cid) (conversations s), called (SelectConversationById cid) s)"

definition select_conversations_by_participant_1 ::
  "uuid \<Rightarrow> store \<Rightarrow> conversation_row list \<times> store" where
  "select_conversations_by_participant_1 u s =
     (filter (\<lambda>c. participant_1_id c = u) (conversations s),
      called (SelectConversationsByParticipant1 u) s)"

definition select_conversations_by_participant_2 ::
  "uuid \<Rightarrow> store \<Rightarrow> conversation_row list \<times> store" where
  "select_conversations_by_participant_2 u s =
     (filter (\<lambda>c. participant_2_id c = u) (conversations s),
      called (SelectConversationsByParticipant2 u) s)"

definition new_conversation :: "generated \<Rightarrow> uuid \<Rightarrow> uuid \<Rightarrow> conversation_row" where
  "new_conversation g p1 p2 =
     \<lparr> conv_id = new_id g, participant_1_id = p1, participant_2_id = p2,
       last_message_at = now g, conv_created_at = now g \<rparr>"

definition insert_conversation ::
  "uuid \<Rightarrow> uuid \<Rightarrow> generated \<Rightarrow> store \<Rightarrow> (store_error + conversation_row list) \<times> store" where
  "insert_conversation p1 p2 g s =
     (let s' = called (InsertConversation p1 p2) s;
          row = new_conversation g p1 p2
      in if \<not> p1 < p2 then (Inl CheckViolation, s')
         else if list_ex (\<lambda>c. participant_1_id c = p1 \<and> participant_2_id c = p2) (conversations s)
           then (Inl UniqueViolation, s')
         else if list_ex (\<lambda>c. conv_id c = new_id g) (conversations s)
           then (Inl UniqueViolation, s')
         else (Inr [row], s'\<lparr>conversations := conversations s @ [row]\<rparr>))"

definition new_message :: "generated \<Rightarrow> uuid \<Rightarrow> uuid \<Rightarrow> pystr \<Rightarrow> message_row" where
  "new_message g cid sender enc =
     \<lparr> msg_id = new_id g, conversation_id = cid, sender_id = sender,
       content_encrypted = enc, is_read = False, created_at = now g \<rparr>"

definition insert_message ::
  "uuid \<Rightarrow> uuid \<Rightarrow> pystr \<Rightarrow> generated \<Rightarrow> store \<Rightarrow> (store_error + message_row list) \<times> store" where
  "insert_message cid sender enc g s =
     (let s' = called (InsertMessage cid sender enc) s;
          row = new_message g cid sender enc
      in if list_ex (\<lambda>m. msg_id m = new_id g) (messages s)
           then (Inl UniqueViolation, s')
         else (Inr [row], s'\<lparr>messages := messages s @ [row]\<rparr>))"

definition count_messages :: "uuid \<Rightarrow> store \<Rightarrow> nat \<times> store" where
  "count_messages cid s =
     (length (filter (\<lambda>m. conversation_id m = cid) (messages s)), called (CountMessages cid) s)"

text \<open>
  Descending order that keeps the given order among equal keys (what Python's
  \<^verbatim>\<open>sort(reverse=True)\<close> does; the store's order among equal timestamps is taken the same).
\<close>

definition order_desc :: "('a \<Rightarrow> timestamp) \<Rightarrow> 'a list \<Rightarrow> 'a list" where
  "order_desc f xs = rev (sort_key f (rev xs))"

text \<open>\<^verbatim>\<open>.order("created_at", desc=True).range(start, end)\<close>: rows start to end, inclusive.\<close>

definition select_messages_page ::
  "uuid \<Rightarrow> int \<Rightarrow> int \<Rightarrow> store \<Rightarrow> message_row list \<times> store" where
  "select_messages_page cid range_start range_end s =
     (take (nat (range_end - range_start + 1))
        (drop (nat range_start)
           (order_desc created_at (filter (\<lambda>m. conversation_id m = cid) (messages s)))),
      called (SelectMessagesPage cid range_start range_end) s)"

definition select_messages :: "uuid \<Rightarrow> store \<Rightarrow> message_row list \<times> store" where
  "select_messages cid s =
     (filter (\<lambda>m. conversation_id m = cid) (messages s), called (SelectMessages cid) s)"

definition select_message_by_id :: "uuid \<Rightarrow> store \<Rightarrow> message_row list \<times> store" where
  "select_message_by_id mid s =
     (filter (\<lambda>m. msg_id m = mid) (messages s), called (SelectMessageById mid) s)"

text \<open>
  \<^verbatim>\<open>.update({"is_read": True}).eq("id", mid)\<close>: every row the filter matches is written and
  returned, whatever its flag was before.
\<close>

definition update_message_read :: "uuid \<Rightarrow> store \<Rightarrow> message_row list \<times> store" where
  "update_message_read mid s =
     (let updated = map (\<lambda>m. if msg_id m = mid then m\<lparr>is_read := True\<rparr> else m) (messages s)
      in (filter (\<lambda>m. msg_id m = mid) updated,
          called (UpdateMessageRead mid) (s\<lparr>messages := updated\<rparr>)))"

definition select_profile :: "uuid \<Rightarrow> store \<Rightarrow> store" where
  "select_profile u s = called (SelectProfile u) s"


section \<open>The chat service: \<^verbatim>\<open>chat_service.py\<close>\<close>

record conversation_response =
  cr_id :: uuid
  cr_participant_1_id :: uuid
  cr_participant_2_id :: uuid
  cr_last_message_at :: timestamp
  cr_created_at :: timestamp
  cr_other_participant :: uuid
  cr_unread_count :: nat

record message_response =
  mr_id :: uuid
  mr_conversation_id :: uuid
  mr_sender_id :: uuid
  mr_content_encrypted :: pystr
  mr_content :: pystr
  mr_is_read :: bool
  mr_created_at :: timestamp

record message_list_response =
  lr_messages :: "message_response list"
  lr_total :: int
  lr_page :: int
  lr_page_size :: int
  lr_has_more :: bool

text \<open>\<^verbatim>\<open>_format_conversation_response(conv, user_id)\<close>\<close>

definition format_conversation_response :: "conversation_row \<Rightarrow> uuid \<Rightarrow> conversation_response" where
  "format_conversation_response conv user_id =
     (let is_user_participant_1 = (participant_1_id conv = user_id);
          other_id = (if is_user_participant_1 then participant_2_id conv
                      else participant_1_id conv)
      in \<lparr> cr_id = conv_id conv,
           cr_participant_1_id = participant_1_id conv,
           cr_participant_2_id = participant_2_id conv,
           cr_last_message_at = last_message_at conv,
           cr_created_at = conv_created_at conv,
           cr_other_participant = other_id,
           cr_unread_count = 0 \<rparr>)"

text \<open>
  \<^verbatim>\<open>get_or_create_conversation(user_id, participant_id)\<close>. Between the lookup and the insert
  the store is out of the caller's hands: \<open>meanwhile\<close> is what other callers do to it in
  that gap (the identity when there are none). Every exception other than
  \<^verbatim>\<open>InvalidParticipantError\<close>, the store's included, leaves as a bare \<^verbatim>\<open>Exception\<close>.
\<close>

definition get_or_create_conversation ::
  "(store \<Rightarrow> store) \<Rightarrow> generated \<Rightarrow> uuid \<Rightarrow> uuid \<Rightarrow> store
     \<Rightarrow> (error + conversation_response) \<times> store" where
  "get_or_create_conversation meanwhile g user_id participant_id s =
     (if user_id = participant_id then (Inl InvalidParticipantError, s)
      else
        let (p1_id, p2_id) = (if user_id < participant_id then (user_id, participant_id)
                              else (participant_id, user_id));
            (existing, s1) = select_conversation_by_pair p1_id p2_id s
        in case existing of
             conv # _ \<Rightarrow> (Inr (format_conversation_response conv user_id), s1)
           | [] \<Rightarrow>
               (case insert_conversation p1_id p2_id g (meanwhile s1) of
                  (Inl e, s2) \<Rightarrow>
                    (Inl (Exception ''Error getting or creating conversation''), s2)
                | (Inr [], s2) \<Rightarrow>
                    (Inl (Exception ''Error getting or creating conversation''), s2)
                | (Inr (created_conv # _), s2) \<Rightarrow>
                    (let (full, s3) = select_conversation_by_id (conv_id created_conv) s2
                     in case full of
                          [] \<Rightarrow> (Inl (Exception ''Error getting or creating conversation''), s3)
                        | conv # _ \<Rightarrow> (Inr (format_conversation_response conv user_id), s3))))"

text \<open>
  \<^verbatim>\<open>send_message(conversation_id, sender_id, message_data)\<close>; \<open>content\<close> is
  \<^verbatim>\<open>message_data.content\<close>. The response carries the caller's plaintext beside the stored
  ciphertext.
\<close>

definition send_message ::
  "extern \<Rightarrow> bytes \<Rightarrow> generated \<Rightarrow> uuid \<Rightarrow> uuid \<Rightarrow> pystr \<Rightarrow> store
     \<Rightarrow> (error + message_response) \<times> store" where
  "send_message X nonce g conv_id' sender content s =
     (let (conv_data, s1) = select_conversation_by_id conv_id' s
      in case conv_data of
           [] \<Rightarrow> (Inl ConversationNotFoundError, s1)
         | conv # _ \<Rightarrow>
             if participant_1_id conv \<noteq> sender \<and> participant_2_id conv \<noteq> sender
             then (Inl UnauthorizedError, s1)
             else
               (case encrypt_message X nonce content None of
                  Inl e \<Rightarrow> (Inl (Exception ''Error sending message''), s1)
                | Inr encrypted_content \<Rightarrow>
                    (case insert_message conv_id' sender encrypted_content g s1 of
                       (Inl e, s2) \<Rightarrow> (Inl (Exception ''Error sending message''), s2)
                     | (Inr [], s2) \<Rightarrow> (Inl (Exception ''Error sending message''), s2)
                     | (Inr (created_message # _), s2) \<Rightarrow>
                         (Inr \<lparr> mr_id = msg_id created_message,
                                mr_conversation_id = conversation_id created_message,
                                mr_sender_id = sender_id created_message,
                                mr_content_encrypted = content_encrypted created_message,
                                mr_content = content,
                                mr_is_read = is_read created_message,
                                mr_created_at = created_at created_message \<rparr>,
                          select_profile sender s2))))"

text \<open>The body of the decrypting loops: a stored row with its decrypted content.\<close>

definition format_message :: "message_row \<Rightarrow> pystr \<Rightarrow> message_response" where
  "format_message msg decrypted_content =
     \<lparr> mr_id = msg_id msg,
       mr_conversation_id = conversation_id msg,
       mr_sender_id = sender_id msg,
       mr_content_encrypted = content_encrypted msg,
       mr_content = decrypted_content,
       mr_is_read = is_read msg,
       mr_created_at = created_at msg \<rparr>"

text \<open>
  The loop of \<^verbatim>\<open>get_conversation_messages\<close> over the page: a row whose decryption raises
  is passed over (\<^verbatim>\<open>except Exception: ... continue\<close>).
\<close>

fun format_messages :: "extern \<Rightarrow> message_row list \<Rightarrow> message_response list" where
  "format_messages X [] = []"
| "format_messages X (msg # rest) =
     (case decrypt_message X (content_encrypted msg) None of
        Inl e \<Rightarrow> format_messages X rest
      | Inr decrypted_content \<Rightarrow> format_message msg decrypted_content # format_messages X rest)"

text \<open>
  \<^verbatim>\<open>get_conversation_messages(conversation_id, user_id, page, page_size)\<close>. The response
  model requires \<^verbatim>\<open>page >= 1\<close> and \<^verbatim>\<open>page_size >= 1\<close>: with a smaller value no response
  can be built, whatever the store answers to the out-of-range request, and the handler
  raises the bare \<^verbatim>\<open>Exception\<close>.
\<close>

definition get_conversation_messages ::
  "extern \<Rightarrow> uuid \<Rightarrow> uuid \<Rightarrow> int \<Rightarrow> int \<Rightarrow> store \<Rightarrow> (error + message_list_response) \<times> store" where
  "get_conversation_messages X conv_id' user_id page page_size s =
     (let (conv_data, s1) = select_conversation_by_id conv_id' s
      in case conv_data of
           [] \<Rightarrow> (Inl ConversationNotFoundError, s1)
         | conv # _ \<Rightarrow>
             if participant_1_id conv \<noteq> user_id \<and> participant_2_id conv \<noteq> user_id
             then (Inl UnauthorizedError, s1)
             else
               let (total_count, s2) = count_messages conv_id' s1;
                   offset = (page - 1) * page_size;
                   (page_data, s3) = select_messages_page conv_id' offset (offset + page_size - 1) s2
               in if page < 1 \<or> page_size < 1
                  then (Inl (Exception ''Error fetching messages''), s3)
                  else if page_data = []
                  then (Inr \<lparr> lr_messages = [], lr_total = 0, lr_page = page,
                              lr_page_size = page_size, lr_has_more = False \<rparr>, s3)
                  else
                    let formatted_messages = format_messages X page_data;
                        has_more = (page * page_size < int total_count)
                    in (Inr \<lparr> lr_messages = formatted_messages, lr_total = int total_count,
                               lr_page = page, lr_page_size = page_size,
                               lr_has_more = has_more \<rparr>, s3))"

text \<open>
  The loop of \<^verbatim>\<open>mark_messages_as_read\<close>: the message is looked up by its key; when its
  sender is not the caller the row is updated, and counted when the update returns rows.
\<close>

fun mark_each :: "uuid \<Rightarrow> uuid list \<Rightarrow> nat \<Rightarrow> store \<Rightarrow> nat \<times> store" where
  "mark_each user_id [] updated_count s = (updated_count, s)"
| "mark_each user_id (message_id # rest) updated_count s =
     (let (msg_data, s1) = select_message_by_id message_id s
      in case msg_data of
           [] \<Rightarrow> mark_each user_id rest updated_count s1
         | msg # _ \<Rightarrow>
             if sender_id msg \<noteq> user_id
             then
               let (update_data, s2) = update_message_read message_id s1
               in mark_each user_id rest
                    (if update_data \<noteq> [] then updated_count + 1 else updated_count) s2
             else mark_each user_id rest updated_count s1)"

text \<open>\<^verbatim>\<open>mark_messages_as_read(user_id, message_ids)\<close>\<close>

definition mark_messages_as_read :: "uuid \<Rightarrow> uuid list \<Rightarrow> store \<Rightarrow> (error + nat) \<times> store" where
  "mark_messages_as_read user_id message_ids s =
     (if message_ids = [] then (Inr 0, s)
      else let (updated_count, s') = mark_each user_id message_ids 0 s
           in (Inr updated_count, s'))"

text \<open>The inner loop of \<^verbatim>\<open>search_messages\<close> over the rows of one conversation.\<close>

fun search_rows :: "extern \<Rightarrow> pystr \<Rightarrow> message_row list \<Rightarrow> message_response list" where
  "search_rows X query_lower [] = []"
| "search_rows X query_lower (msg # rest) =
     (case decrypt_message X (content_encrypted msg) None of
        Inl e \<Rightarrow> search_rows X query_lower rest
      | Inr decrypted_content \<Rightarrow>
          if str_contains query_lower (str_lower X decrypted_content)
          then format_message msg decrypted_content # search_rows X query_lower rest
          else search_rows X query_lower rest)"

text \<open>The outer loop of \<^verbatim>\<open>search_messages\<close> over the conversations in scope.\<close>

fun search_conversations ::
  "extern \<Rightarrow> pystr \<Rightarrow> uuid list \<Rightarrow> store \<Rightarrow> message_response list \<times> store" where
  "search_conversations X query_lower [] s = ([], s)"
| "search_conversations X query_lower (cid # rest) s =
     (let (msg_data, s1) = select_messages cid s;
          (more, s2) = search_conversations X query_lower rest s1
      in (search_rows X query_lower msg_data @ more, s2))"

text \<open>
  \<^verbatim>\<open>search_messages(user_id, query, conversation_id)\<close>. A \<^verbatim>\<open>UUID\<close> object is always true
  in a condition, so \<^verbatim>\<open>if conversation_id:\<close> separates a given identifier from \<^verbatim>\<open>None\<close>.
\<close>

definition search_messages ::
  "extern \<Rightarrow> uuid \<Rightarrow> pystr \<Rightarrow> uuid option \<Rightarrow> store
     \<Rightarrow> (error + message_response list) \<times> store" where
  "search_messages X user_id query conv_id' s =
     (let (scope, s') =
            (case conv_id' of
               Some cid \<Rightarrow>
                 (let (conv_data, s1) = select_conversation_by_id cid s
                  in case conv_data of
                       [] \<Rightarrow> (None, s1)
                     | conv # _ \<Rightarrow>
                         if participant_1_id conv \<noteq> user_id \<and> participant_2_id conv \<noteq> user_id
                         then (None, s1)
                         else (Some [cid], s1))
             | None \<Rightarrow>
                 (let (conv1, s1) = select_conversations_by_participant_1 user_id s;
                      (conv2, s2) = select_conversations_by_participant_2 user_id s1
                  in (Some (map conv_id conv1 @ map conv_id conv2), s2)))
      in case scope of
           None \<Rightarrow> (Inr [], s')
         | Some conversation_ids \<Rightarrow>
             if conversation_ids = [] then (Inr [], s')
             else
               let (matching_messages, s'') =
                     search_conversations X (str_lower X query) conversation_ids s'
               in (Inr (order_desc mr_created_at matching_messages), s''))"


section \<open>Notions used in the statements\<close>

text \<open>What the lookup of \<^verbatim>\<open>get_or_create_conversation\<close> finds for two users, in either order.\<close>

definition pair_rows :: "uuid \<Rightarrow> uuid \<Rightarrow> store \<Rightarrow> conversation_row list" where
  "pair_rows a b s = fst (select_conversation_by_pair (min a b) (max a b) s)"

text \<open>The conversation a key names (the first row the select by key returns), if any.\<close>

definition lookup_conversation :: "uuid \<Rightarrow> store \<Rightarrow> conversation_row option" where
  "lookup_conversation cid s =
     (case fst (select_conversation_by_id cid s) of [] \<Rightarrow> None | conv # _ \<Rightarrow> Some conv)"

definition is_participant :: "uuid \<Rightarrow> conversation_row \<Rightarrow> bool" where
  "is_participant u conv \<longleftrightarrow> participant_1_id conv = u \<or> participant_2_id conv = u"

text \<open>The message a key names, if any.\<close>

definition lookup_message :: "uuid \<Rightarrow> store \<Rightarrow> message_row option" where
  "lookup_message mid s =
     (case fst (select_message_by_id mid s) of [] \<Rightarrow> None | msg # _ \<Rightarrow> Some msg)"

text \<open>
  Whether \<^verbatim>\<open>mark_messages_as_read\<close> counts a key for a caller: the message exists and its
  stored sender is not the caller. Neither the read flag nor the conversation enters.
\<close>

definition counted :: "uuid \<Rightarrow> store \<Rightarrow> uuid \<Rightarrow> bool" where
  "counted u s mid =
     (case lookup_message mid s of None \<Rightarrow> False | Some msg \<Rightarrow> sender_id msg \<noteq> u)"

text \<open>
  The rows the store returns for one page of a conversation, and whether a stored row's
  ciphertext decrypts.
\<close>

definition page_rows :: "uuid \<Rightarrow> int \<Rightarrow> int \<Rightarrow> store \<Rightarrow> message_row list" where
  "page_rows cid page page_size s =
     fst (select_messages_page cid ((page - 1) * page_size)
            ((page - 1) * page_size + page_size - 1) s)"

definition decrypts :: "extern \<Rightarrow> message_row \<Rightarrow> bool" where
  "decrypts X msg \<longleftrightarrow> \<not> isl (decrypt_message X (content_encrypted msg) None)"

text \<open>
  Concrete inputs for running the model: a store with no rows; a second caller (user 22
  opening the conversation with user 11) acting between another caller's lookup and
  insert; two stores holding the conversation of users 11 and 22 (under id 55 and under
  id 100); the latter after user 11 has sent "hi"; and a store whose second message has a
  corrupted ciphertext.
\<close>

definition empty_store :: store where
  "empty_store = \<lparr> conversations = [], messages = [], calls = [] \<rparr>"

definition rival :: "store \<Rightarrow> store" where
  "rival s = snd (get_or_create_conversation id \<lparr> new_id = 101, now = 2 \<rparr> 22 11 s)"

definition other_store :: store where
  "other_store =
     \<lparr> conversations =
         [\<lparr> conv_id = 55, participant_1_id = 11, participant_2_id = 22,
            last_message_at = 4, conv_created_at = 2 \<rparr>],
       messages = [],
       calls = [] \<rparr>"

definition conv_store :: store where
  "conv_store =
     \<lparr> conversations =
         [\<lparr> conv_id = 100, participant_1_id = 11, participant_2_id = 22,
            last_message_at = 3, conv_created_at = 3 \<rparr>],
       messages = [],
       calls = [] \<rparr>"

definition sent_store :: store where
  "sent_store =
     snd (send_message demo_extern [] \<lparr> new_id = 200, now = 5 \<rparr> 100 11 [0x68, 0x69]
            conv_store)"

definition corrupt_store :: store where
  "corrupt_store =
     \<lparr> conversations =
         [\<lparr> conv_id = 100, participant_1_id = 11, participant_2_id = 22,
            last_message_at = 3, conv_created_at = 3 \<rparr>],
       messages =
         [\<lparr> msg_id = 200, conversation_id = 100, sender_id = 11,
            content_encrypted = [0x67, 0x69, 0x68], is_read = False, created_at = 5 \<rparr>,
          \<lparr> msg_id = 201, conversation_id = 100, sender_id = 22,
            content_encrypted = [0x78, 0x78], is_read = False, created_at = 6 \<rparr>],
       calls = [] \<rparr>"


section \<open>UTF-8 round trips\<close>

lemma mod64_le: "(x::nat) mod 64 \<le> 63"
  using mod_less_divisor [of 64 x] by simp

lemma split64: "(q::nat) div 64 * (64 * k) + q mod 64 * k = q * k"
proof -
  have "(q div 64 * 64 + q mod 64) * k = q * k"
    by (simp only: div_mult_mod_eq)
  then show ?thesis
    by (simp only: add_mult_distrib mult.assoc)
qed

lemma split64_64: "(q::nat) div 64 * 4096 + q mod 64 * 64 = q * 64"
  using split64 [of q 64] by simp

lemma split64_4096: "(q::nat) div 64 * 262144 + q mod 64 * 4096 = q * 4096"
  using split64 [of q 4096] by simp

lemma three_bytes_value: "(c::nat) div 4096 * 4096 + c div 64 mod 64 * 64 + c mod 64 = c"
proof -
  have "c div 4096 = c div 64 div 64"
    by (simp add: div_mult2_eq [symmetric])
  then have "c div 4096 * 4096 + c div 64 mod 64 * 64 = c div 64 * 64"
    by (simp only: split64_64)
  then show ?thesis
    by (simp only: div_mult_mod_eq)
qed

lemma four_bytes_value:
  "(c::nat) div 262144 * 262144 + c div 4096 mod 64 * 4096 + c div 64 mod 64 * 64 + c mod 64 = c"
proof -
  have "c div 262144 = c div 4096 div 64"
    by (simp add: div_mult2_eq [symmetric])
  then have "c div 262144 * 262144 + c div 4096 mod 64 * 4096 = c div 4096 * 4096"
    by (simp only: split64_4096)
  then show ?thesis
    by (simp only: three_bytes_value)
qed

lemma seq_len_ascii: "c < 0x80 \<Longrightarrow> seq_len c = 1"
  by (simp add: seq_len_def)

lemma decode_cp_1: "c < 0x80 \<Longrightarrow> utf8_decode_cp (c # rest) = Some (c, rest)"
  by (simp add: seq_len_ascii)

lemma decode_cp_2:
  assumes "0x80 \<le> c" "c < 0x800"
  shows "utf8_decode_cp ((0xC0 + c div 64) # (0x80 + c mod 64) # rest) = Some (c, rest)"
proof -
  have l: "seq_len (0xC0 + c div 64) = 2"
    using assms by (simp add: seq_len_def less_eq_div_iff_mult_less_eq)
  have s: "scalar2 (0xC0 + c div 64) (0x80 + c mod 64) = Some c"
    by (simp add: scalar2_def is_cont_def mod64_le)
  show ?thesis by (simp add: l s)
qed

lemma decode_cp_3:
  assumes "0x800 \<le> c" "c < 0x10000" "\<not> (0xD800 \<le> c \<and> c \<le> 0xDFFF)"
  shows "utf8_decode_cp ((0xE0 + c div 4096) # (0x80 + c div 64 mod 64) # (0x80 + c mod 64) # rest)
         = Some (c, rest)"
proof -
  have l: "seq_len (0xE0 + c div 4096) = 3"
    using assms by (simp add: seq_len_def less_eq_div_iff_mult_less_eq)
  have s: "scalar3 (0xE0 + c div 4096) (0x80 + c div 64 mod 64) (0x80 + c mod 64) = Some c"
    using assms by (simp add: scalar3_def is_cont_def three_bytes_value mod64_le)
  show ?thesis by (simp add: l s)
qed

lemma decode_cp_4:
  assumes "0x10000 \<le> c" "c < 0x110000"
  shows "utf8_decode_cp ((0xF0 + c div 262144) # (0x80 + c div 4096 mod 64) #
            (0x80 + c div 64 mod 64) # (0x80 + c mod 64) # rest) = Some (c, rest)"
proof -
  have l: "seq_len (0xF0 + c div 262144) = 4"
    using assms by (simp add: seq_len_def less_eq_div_iff_mult_less_eq)
  have s: "scalar4 (0xF0 + c div 262144) (0x80 + c div 4096 mod 64) (0x80 + c div 64 mod 64)
             (0x80 + c mod 64) = Some c"
    using assms by (simp add: scalar4_def is_cont_def four_bytes_value mod64_le)
  show ?thesis by (simp add: l s)
qed

lemma utf8_decode_encode_cp:
  assumes "utf8_encode_cp c = Some bs"
  shows "utf8_decode_cp (bs @ rest) = Some (c, rest) \<and> bs \<noteq> []"
  using assms unfolding utf8_encode_cp_def
  by (auto simp: decode_cp_1 decode_cp_2 decode_cp_3 decode_cp_4 simp del: utf8_decode_cp.simps
      split: if_splits)

lemma utf8_decode_encode: "utf8_encode s = Some bs \<Longrightarrow> utf8_decode bs = Some s"
proof (induction s arbitrary: bs)
  case Nil
  then show ?case by (simp add: utf8_decode.simps)
next
  case (Cons c cs)
  from Cons.prems obtain b r where b: "utf8_encode_cp c = Some b"
    and r: "utf8_encode cs = Some r" and bs: "bs = b @ r"
    by (auto split: option.splits)
  from utf8_decode_encode_cp [OF b, of r]
  have d: "utf8_decode_cp (b @ r) = Some (c, r)" "b \<noteq> []"
    by simp_all
  from Cons.IH [OF r] have "utf8_decode r = Some cs" .
  with d bs show ?case
    by (subst utf8_decode.simps) simp
qed

lemma ascii_decode: "list_all (\<lambda>b. b < 0x80) bs \<Longrightarrow> utf8_decode bs = Some bs"
proof (induction bs)
  case Nil
  then show ?case by (simp add: utf8_decode.simps)
next
  case (Cons b bs)
  then show ?case by (subst utf8_decode.simps) (simp add: seq_len_ascii)
qed

lemma ascii_encode: "list_all (\<lambda>b. b < 0x80) bs \<Longrightarrow> utf8_encode bs = Some bs"
  by (induction bs) (auto simp: utf8_encode_cp_def)

lemma strip_Nil: "strip [] = []"
  by (simp add: strip_def)


section \<open>The round-trip law of the cipher\<close>

text \<open>
  C4, as stated: every plaintext of nonzero length survives encryption followed by
  decryption. The string of one space has length one, and \<^verbatim>\<open>encrypt_message\<close> rejects it
  with \<^verbatim>\<open>ValueError\<close> at its guard, before any encryption: there is no ciphertext to
  decrypt.
\<close>

theorem encrypt_message_roundtrip_counterexample:
  "length [0x20::nat] \<noteq> 0 \<and> encrypt_message demo_extern [] [0x20] None = Inl ValueError"
  by (simp add: encrypt_message_def strip_def py_isspace_def)

text \<open>
  C4, amended: for every plaintext that is neither empty nor whitespace-only (and that
  UTF-8 can encode, as the secret must be), encryption succeeds and decryption of its result
  under the same derived key returns the plaintext, given that Fernet keeps its promise
  on the encoded plaintext.
\<close>

theorem encrypt_message_roundtrip:
  assumes "strip s \<noteq> []"
    and "utf8_encode s = Some data"
    and "utf8_encode (SECRET_KEY X) = Some pw"
    and "fernet_ok X (kdf X pw) nonce data"
  shows "\<exists>token. encrypt_message X nonce s None = Inr token
           \<and> decrypt_message X token None = Inr s"
proof -
  let ?t = "fernet_encrypt X (kdf X pw) nonce data"
  from assms(4) have t: "?t \<noteq> []" "list_all (\<lambda>b. b < 0x80) ?t"
    "fernet_decrypt X (kdf X pw) ?t = Some data"
    by (simp_all add: fernet_ok_def Let_def)
  from assms(1) have s: "s \<noteq> []"
    by (auto simp: strip_Nil)
  have k: "get_fernet_key X None = Inr (kdf X pw)"
    by (simp add: get_fernet_key_def assms(3))
  have e: "encrypt_message X nonce s None = Inr ?t"
    by (simp add: encrypt_message_def assms(1,2) s k ascii_decode [OF t(2)])
  have d: "decrypt_message X ?t None = Inr s"
    by (simp add: decrypt_message_def t(1,3) k ascii_encode [OF t(2)]
        utf8_decode_encode [OF assms(2)])
  from e d show ?thesis by blast
qed

theorem encrypt_message_roundtrip_witness:
  "strip [0x68, 0x69] \<noteq> []
   \<and> (\<exists>token. encrypt_message demo_extern [] [0x68, 0x69] None = Inr token
         \<and> decrypt_message demo_extern token None = Inr [0x68, 0x69])"
proof -
  have 1: "strip [0x68, 0x69] \<noteq> []"
    by (simp add: strip_def py_isspace_def)
  have 2: "utf8_encode [0x68, 0x69] = Some [0x68, 0x69]"
    by (simp add: utf8_encode_cp_def)
  have 3: "utf8_encode (SECRET_KEY demo_extern) = Some [0x6B, 0x65, 0x79]"
    by (simp add: demo_extern_def utf8_encode_cp_def)
  have 4: "fernet_ok demo_extern (kdf demo_extern [0x6B, 0x65, 0x79]) [] [0x68, 0x69]"
    by (simp add: fernet_ok_def demo_extern_def)
  from 1 encrypt_message_roundtrip [OF 1 2 3 4] show ?thesis by blast
qed

section \<open>Facts about the store\<close>

lemma conversations_called [simp]: "conversations (called c s) = conversations s"
  and messages_called [simp]: "messages (called c s) = messages s"
  and calls_called [simp]: "calls (called c s) = calls s @ [c]"
  by (simp_all add: called_def)

lemma filter_Nil_list_ex: "filter P xs = [] \<longleftrightarrow> \<not> list_ex P xs"
  by (simp add: list_ex_iff filter_empty_conv)

lemma filter_Cons_holds: "filter P xs = y # ys \<Longrightarrow> P y"
  by (metis list.set_intros(1) mem_Collect_eq set_filter)

lemma new_conversation_sel [simp]:
  "conv_id (new_conversation g lo hi) = new_id g"
  "participant_1_id (new_conversation g lo hi) = lo"
  "participant_2_id (new_conversation g lo hi) = hi"
  by (simp_all add: new_conversation_def)

lemma pair_rows_filter:
  "pair_rows a b s =
     filter (\<lambda>c. participant_1_id c = min a b \<and> participant_2_id c = max a b) (conversations s)"
  by (simp add: pair_rows_def select_conversation_by_pair_def)

lemma pair_rows_commute: "pair_rows b a s = pair_rows a b s"
  by (simp add: pair_rows_filter min.commute max.commute)

lemma pair_rows_called [simp]: "pair_rows a b (called c s) = pair_rows a b s"
  by (simp add: pair_rows_filter)

lemma pair_rows_head:
  assumes "pair_rows a b s = conv # rest"
  shows "participant_1_id conv = min a b" and "participant_2_id conv = max a b"
  using filter_Cons_holds [OF assms [unfolded pair_rows_filter]] by simp_all

lemma pair_rows_new:
  "pair_rows a b (s\<lparr>conversations := cs @ [new_conversation g (min a b) (max a b)]\<rparr>)
   = pair_rows a b (s\<lparr>conversations := cs\<rparr>) @ [new_conversation g (min a b) (max a b)]"
  by (simp add: pair_rows_filter)

lemma pair_rows_conversations_update [simp]:
  "pair_rows a b (s\<lparr>conversations := conversations s\<rparr>) = pair_rows a b s"
  by (simp add: pair_rows_filter)

lemma canonical_order:
  assumes "(a::nat) \<noteq> b"
  shows "(if a < b then (a, b) else (b, a)) = (min a b, max a b)" and "min a b < max a b"
  using assms by (auto simp: min_def max_def)

lemma insert_conversation_unfold:
  assumes "lo < hi"
  shows "insert_conversation lo hi g s =
     (if filter (\<lambda>c. participant_1_id c = lo \<and> participant_2_id c = hi) (conversations s) \<noteq> []
         \<or> list_ex (\<lambda>c. conv_id c = new_id g) (conversations s)
      then (Inl UniqueViolation, called (InsertConversation lo hi) s)
      else (Inr [new_conversation g lo hi],
            (called (InsertConversation lo hi) s)
              \<lparr>conversations := conversations s @ [new_conversation g lo hi]\<rparr>))"
  using assms
  by (simp add: insert_conversation_def Let_def filter_Nil_list_ex)

lemma select_new_conversation:
  assumes "\<not> list_ex (\<lambda>c. conv_id c = new_id g) (conversations s)"
  shows "select_conversation_by_id (new_id g)
           (s'\<lparr>conversations := conversations s @ [new_conversation g lo hi]\<rparr>)
         = ([new_conversation g lo hi],
            called (SelectConversationById (new_id g))
              (s'\<lparr>conversations := conversations s @ [new_conversation g lo hi]\<rparr>))"
  using assms
  by (simp add: select_conversation_by_id_def filter_Nil_list_ex [symmetric])


section \<open>Finding or creating the conversation of two users\<close>

text \<open>
  The function in one equation, for two different users: the lookup under the ordered
  pair answers, or else the insert is attempted on the store as other callers left it.
\<close>

lemma get_or_create_conversation_unfold:
  assumes "a \<noteq> b"
  shows "get_or_create_conversation meanwhile g a b s =
     (let lo = min a b; hi = max a b;
          s1 = called (SelectConversationByPair lo hi) s
      in case pair_rows a b s of
           conv # _ \<Rightarrow> (Inr (format_conversation_response conv a), s1)
         | [] \<Rightarrow>
             (let s2 = called (InsertConversation lo hi) (meanwhile s1);
                  row = new_conversation g lo hi
              in if pair_rows a b (meanwhile s1) \<noteq> []
                    \<or> list_ex (\<lambda>c. conv_id c = new_id g) (conversations (meanwhile s1))
                 then (Inl (Exception ''Error getting or creating conversation''), s2)
                 else (Inr (format_conversation_response row a),
                       called (SelectConversationById (new_id g))
                         (s2\<lparr>conversations := conversations (meanwhile s1) @ [row]\<rparr>))))"
proof (cases "pair_rows a b s")
  case (Cons conv rest)
  then show ?thesis
    using assms
    by (simp add: get_or_create_conversation_def canonical_order(1) [OF assms]
        select_conversation_by_pair_def pair_rows_filter [symmetric])
next
  case Nil
  let ?s1 = "meanwhile (called (SelectConversationByPair (min a b) (max a b)) s)"
  show ?thesis
  proof (cases "pair_rows a b ?s1 \<noteq> []
      \<or> list_ex (\<lambda>c. conv_id c = new_id g) (conversations ?s1)")
    case True
    then show ?thesis
      using assms Nil
      by (simp add: get_or_create_conversation_def canonical_order(1) [OF assms]
          select_conversation_by_pair_def pair_rows_filter [symmetric]
          insert_conversation_unfold [OF canonical_order(2) [OF assms]] Let_def)
  next
    case False
    then have fresh: "\<not> list_ex (\<lambda>c. conv_id c = new_id g) (conversations ?s1)"
      by simp
    from False show ?thesis
      using assms Nil
      by (simp add: get_or_create_conversation_def canonical_order(1) [OF assms]
          select_conversation_by_pair_def pair_rows_filter [symmetric]
          insert_conversation_unfold [OF canonical_order(2) [OF assms]]
          select_new_conversation [OF fresh] Let_def)
  qed
qed

lemma format_conversation_response_other:
  assumes "participant_1_id conv = min a b" "participant_2_id conv = max a b" "a \<noteq> b"
  shows "format_conversation_response conv b
         = (format_conversation_response conv a)\<lparr>cr_other_participant := a\<rparr>"
  using assms by (auto simp: format_conversation_response_def Let_def min_def max_def)

lemma format_conversation_response_sel [simp]:
  "cr_id (format_conversation_response conv u) = conv_id conv"
  "cr_participant_1_id (format_conversation_response conv u) = participant_1_id conv"
  "cr_participant_2_id (format_conversation_response conv u) = participant_2_id conv"
  by (simp_all add: format_conversation_response_def Let_def)

lemma get_or_create_conversation_store:
  assumes "a \<noteq> b"
  shows "snd (get_or_create_conversation m g b a s) = snd (get_or_create_conversation m g a b s)"
  using assms
  by (simp add: get_or_create_conversation_unfold pair_rows_commute min.commute max.commute
      Let_def split: list.splits)

lemma get_or_create_conversation_other:
  assumes "a \<noteq> b"
  shows "fst (get_or_create_conversation m g b a s)
         = map_sum id (\<lambda>r. r\<lparr>cr_other_participant := a\<rparr>)
             (fst (get_or_create_conversation m g a b s))"
proof (cases "pair_rows a b s")
  case Nil
  then show ?thesis
    using assms
    by (simp add: get_or_create_conversation_unfold pair_rows_commute min.commute max.commute
        Let_def format_conversation_response_other [of _ a b])
next
  case (Cons conv rest)
  from pair_rows_head [OF Cons] Cons show ?thesis
    using assms
    by (simp add: get_or_create_conversation_unfold pair_rows_commute min.commute max.commute
        Let_def format_conversation_response_other [of _ a b])
qed

lemma get_or_create_conversation_low_high:
  assumes "a \<noteq> b" and "fst (get_or_create_conversation m g a b s) = Inr c"
  shows "cr_participant_1_id c = min a b \<and> cr_participant_2_id c = max a b"
proof (cases "pair_rows a b s")
  case Nil
  with assms show ?thesis
    by (auto simp: get_or_create_conversation_unfold Let_def split: if_splits)
next
  case (Cons conv rest)
  from pair_rows_head [OF Cons] Cons assms show ?thesis
    by (auto simp: get_or_create_conversation_unfold Let_def)
qed

lemma get_or_create_conversation_again:
  assumes "a \<noteq> b" and "get_or_create_conversation id g a b s = (Inr c, s')"
  shows "\<exists>c'. get_or_create_conversation id g' b a s'
                = (Inr c', called (SelectConversationByPair (min a b) (max a b)) s')
              \<and> cr_id c' = cr_id c"
proof (cases "pair_rows a b s")
  case Nil
  let ?row = "new_conversation g (min a b) (max a b)"
  from assms Nil have c: "c = format_conversation_response ?row a"
    and convs: "conversations s' = conversations s @ [?row]"
    by (auto simp: get_or_create_conversation_unfold Let_def split: if_splits)
  from Nil have "pair_rows a b s' = [?row]"
    by (simp add: pair_rows_filter convs)
  with assms(1) show ?thesis
    by (simp add: get_or_create_conversation_unfold Let_def pair_rows_commute
        min.commute max.commute c)
next
  case (Cons conv rest)
  with assms show ?thesis
    by (auto simp: get_or_create_conversation_unfold Let_def pair_rows_commute
        min.commute max.commute)
qed

lemma get_or_create_conversation_invariant:
  assumes "a \<noteq> b"
    and "list_all (\<lambda>c. participant_1_id c < participant_2_id c) (conversations s)"
  shows "list_all (\<lambda>c. participant_1_id c < participant_2_id c)
           (conversations (snd (get_or_create_conversation id g a b s)))"
  using assms canonical_order(2) [OF assms(1)]
  by (simp add: get_or_create_conversation_unfold Let_def split: list.splits)

lemma get_or_create_conversation_found:
  assumes "a \<noteq> b" and "pair_rows a b s = conv # rest"
  shows "get_or_create_conversation m g a b s
         = (Inr (format_conversation_response conv a),
            called (SelectConversationByPair (min a b) (max a b)) s)"
  using assms by (simp add: get_or_create_conversation_unfold Let_def)

lemma get_or_create_conversation_created:
  assumes "a \<noteq> b" and "pair_rows a b s = []"
    and "\<not> list_ex (\<lambda>c. conv_id c = new_id g) (conversations s)"
  shows "get_or_create_conversation id g a b s
         = (Inr (format_conversation_response (new_conversation g (min a b) (max a b)) a),
            called (SelectConversationById (new_id g))
              ((called (InsertConversation (min a b) (max a b))
                  (called (SelectConversationByPair (min a b) (max a b)) s))
                 \<lparr>conversations :=
                    conversations s @ [new_conversation g (min a b) (max a b)]\<rparr>))"
  using assms by (simp add: get_or_create_conversation_unfold Let_def)

lemma pair_rows_subset: "set (pair_rows a b s) \<subseteq> set (conversations s)"
  by (auto simp: pair_rows_filter)

lemma get_or_create_conversation_stored:
  assumes "a \<noteq> b" and "get_or_create_conversation m g a b s = (Inr c, s')"
  shows "list_ex (\<lambda>row. c = format_conversation_response row a \<and> conv_id row = cr_id c
                          \<and> participant_1_id row = min a b \<and> participant_2_id row = max a b)
           (conversations s')"
proof (cases "pair_rows a b s")
  case Nil
  with assms show ?thesis
    by (auto simp: get_or_create_conversation_unfold Let_def split: if_splits)
next
  case (Cons conv rest)
  then have "conv \<in> set (conversations s)"
    using pair_rows_subset [of a b s] by auto
  with pair_rows_head [OF Cons] Cons assms show ?thesis
    by (auto simp: get_or_create_conversation_unfold Let_def list_ex_iff)
qed

lemmas run_store =
  select_conversation_by_pair_def select_conversation_by_id_def insert_conversation_def
  new_conversation_def called_def format_conversation_response_def Let_def

text \<open>
  C1: for two different users, the call in either order goes through the same ordered pair
  (low, high). Both orders leave the same store and return the same conversation record
  (only the field naming the other participant follows the caller). When the store holds a
  conversation under (low, high), the call returns that stored row and sends nothing but
  the lookup; when it holds none (and no other caller intervenes), the call inserts the
  row (low, high) and returns it. Whatever the call returns is a row of the resulting
  store with \<open>participant_1_id = low < high = participant_2_id\<close>; once one order has
  returned a conversation, the other order returns the conversation with the same id and
  inserts nothing; and the store keeps \<open>participant_1_id < participant_2_id\<close> on every
  row.
\<close>

theorem get_or_create_conversation_commutes:
  assumes "a \<noteq> b"
  shows "snd (get_or_create_conversation m g b a s) = snd (get_or_create_conversation m g a b s)
    \<and> fst (get_or_create_conversation m g b a s)
        = map_sum id (\<lambda>r. r\<lparr>cr_other_participant := a\<rparr>)
            (fst (get_or_create_conversation m g a b s))
    \<and> (\<forall>c. fst (get_or_create_conversation m g a b s) = Inr c \<longrightarrow>
          cr_participant_1_id c = min a b \<and> cr_participant_2_id c = max a b
          \<and> cr_participant_1_id c < cr_participant_2_id c)
    \<and> (\<forall>c s'. get_or_create_conversation id g a b s = (Inr c, s') \<longrightarrow>
          (\<exists>c'. get_or_create_conversation id g' b a s'
                  = (Inr c', called (SelectConversationByPair (min a b) (max a b)) s')
                \<and> cr_id c' = cr_id c))
    \<and> (list_all (\<lambda>c. participant_1_id c < participant_2_id c) (conversations s) \<longrightarrow>
          list_all (\<lambda>c. participant_1_id c < participant_2_id c)
            (conversations (snd (get_or_create_conversation id g a b s))))
    \<and> (\<forall>conv rest. pair_rows a b s = conv # rest \<longrightarrow>
          get_or_create_conversation m g a b s
          = (Inr (format_conversation_response conv a),
             called (SelectConversationByPair (min a b) (max a b)) s))
    \<and> (pair_rows a b s = [] \<and> \<not> list_ex (\<lambda>c. conv_id c = new_id g) (conversations s) \<longrightarrow>
          get_or_create_conversation id g a b s
          = (Inr (format_conversation_response (new_conversation g (min a b) (max a b)) a),
             called (SelectConversationById (new_id g))
               ((called (InsertConversation (min a b) (max a b))
                   (called (SelectConversationByPair (min a b) (max a b)) s))
                  \<lparr>conversations :=
                     conversations s @ [new_conversation g (min a b) (max a b)]\<rparr>)))
    \<and> (\<forall>c s'. get_or_create_conversation m g a b s = (Inr c, s') \<longrightarrow>
          list_ex (\<lambda>row. c = format_conversation_response row a \<and> conv_id row = cr_id c
                          \<and> participant_1_id row = min a b \<and> participant_2_id row = max a b)
            (conversations s'))"
  using get_or_create_conversation_store [OF assms]
    get_or_create_conversation_other [OF assms]
    get_or_create_conversation_low_high [OF assms]
    get_or_create_conversation_again [OF assms]
    get_or_create_conversation_invariant [OF assms]
    get_or_create_conversation_found [OF assms]
    get_or_create_conversation_created [OF assms]
    get_or_create_conversation_stored [OF assms]
    canonical_order(2) [OF assms]
  by simp

theorem get_or_create_conversation_commutes_witness:
  "(22::nat) \<noteq> 11
   \<and> get_or_create_conversation id \<lparr> new_id = 100, now = 3 \<rparr> 22 11 empty_store
       = (Inr \<lparr> cr_id = 100, cr_participant_1_id = 11, cr_participant_2_id = 22,
                cr_last_message_at = 3, cr_created_at = 3, cr_other_participant = 11,
                cr_unread_count = 0 \<rparr>,
          \<lparr> conversations =
              [\<lparr> conv_id = 100, participant_1_id = 11, participant_2_id = 22,
                 last_message_at = 3, conv_created_at = 3 \<rparr>],
            messages = [],
            calls = [SelectConversationByPair 11 22, InsertConversation 11 22,
                     SelectConversationById 100] \<rparr>)
   \<and> get_or_create_conversation id \<lparr> new_id = 100, now = 3 \<rparr> 11 22 empty_store
       = (Inr \<lparr> cr_id = 100, cr_participant_1_id = 11, cr_participant_2_id = 22,
                cr_last_message_at = 3, cr_created_at = 3, cr_other_participant = 22,
                cr_unread_count = 0 \<rparr>,
          \<lparr> conversations =
              [\<lparr> conv_id = 100, participant_1_id = 11, participant_2_id = 22,
                 last_message_at = 3, conv_created_at = 3 \<rparr>],
            messages = [],
            calls = [SelectConversationByPair 11 22, InsertConversation 11 22,
                     SelectConversationById 100] \<rparr>)
   \<and> get_or_create_conversation id \<lparr> new_id = 100, now = 3 \<rparr> 22 11 other_store
       = (Inr \<lparr> cr_id = 55, cr_participant_1_id = 11, cr_participant_2_id = 22,
                cr_last_message_at = 4, cr_created_at = 2, cr_other_participant = 11,
                cr_unread_count = 0 \<rparr>,
          called (SelectConversationByPair 11 22) other_store)"
proof -
  have 1: "(22::nat) \<noteq> 11" by simp
  have e: "pair_rows 22 11 empty_store = []"
    "\<not> list_ex (\<lambda>c. conv_id c = new_id \<lparr> new_id = 100, now = 3 \<rparr>) (conversations empty_store)"
    by (simp_all add: pair_rows_filter empty_store_def)
  have o: "pair_rows 22 11 other_store =
      [\<lparr> conv_id = 55, participant_1_id = 11, participant_2_id = 22,
         last_message_at = 4, conv_created_at = 2 \<rparr>]"
    by (simp add: pair_rows_filter other_store_def)
  note t1 = get_or_create_conversation_commutes
                [OF 1, of id "\<lparr> new_id = 100, now = 3 \<rparr>" empty_store]
  note t2 = get_or_create_conversation_commutes
                [OF 1, of id "\<lparr> new_id = 100, now = 3 \<rparr>" other_store]
  have r: "get_or_create_conversation id \<lparr> new_id = 100, now = 3 \<rparr> 22 11 empty_store
       = (Inr \<lparr> cr_id = 100, cr_participant_1_id = 11, cr_participant_2_id = 22,
                cr_last_message_at = 3, cr_created_at = 3, cr_other_participant = 11,
                cr_unread_count = 0 \<rparr>,
          \<lparr> conversations =
              [\<lparr> conv_id = 100, participant_1_id = 11, participant_2_id = 22,
                 last_message_at = 3, conv_created_at = 3 \<rparr>],
            messages = [],
            calls = [SelectConversationByPair 11 22, InsertConversation 11 22,
                     SelectConversationById 100] \<rparr>)"
    using t1 e
    by (simp add: empty_store_def called_def new_conversation_def
        format_conversation_response_def Let_def)
  have r2: "get_or_create_conversation id \<lparr> new_id = 100, now = 3 \<rparr> 22 11 other_store
       = (Inr \<lparr> cr_id = 55, cr_participant_1_id = 11, cr_participant_2_id = 22,
                cr_last_message_at = 4, cr_created_at = 2, cr_other_participant = 11,
                cr_unread_count = 0 \<rparr>,
          called (SelectConversationByPair 11 22) other_store)"
    using t2 o
    by (simp add: format_conversation_response_def Let_def)
  have r3: "get_or_create_conversation id \<lparr> new_id = 100, now = 3 \<rparr> 11 22 empty_store
       = (Inr \<lparr> cr_id = 100, cr_participant_1_id = 11, cr_participant_2_id = 22,
                cr_last_message_at = 3, cr_created_at = 3, cr_other_participant = 22,
                cr_unread_count = 0 \<rparr>,
          \<lparr> conversations =
              [\<lparr> conv_id = 100, participant_1_id = 11, participant_2_id = 22,
                 last_message_at = 3, conv_created_at = 3 \<rparr>],
            messages = [],
            calls = [SelectConversationByPair 11 22, InsertConversation 11 22,
                     SelectConversationById 100] \<rparr>)"
    by (simp add: get_or_create_conversation_def empty_store_def run_store)
  from r r2 r3 show ?thesis by simp
qed

text \<open>
  C6, as stated: when the insert is rejected because a concurrent caller created the
  pair's conversation after the lookup, the existing conversation is re-fetched and
  returned. Here user 11 asks for the conversation with user 22 on an empty store, and
  \<open>rival\<close> creates it (id 101) between the lookup and the insert: the call ends in the
  bare \<^verbatim>\<open>Exception\<close>, and its last request to the store is the rejected insert.
\<close>

theorem get_or_create_conversation_conflict_counterexample:
  "get_or_create_conversation rival \<lparr> new_id = 100, now = 3 \<rparr> 11 22 empty_store
   = (Inl (Exception ''Error getting or creating conversation''),
      \<lparr> conversations =
          [\<lparr> conv_id = 101, participant_1_id = 11, participant_2_id = 22,
             last_message_at = 2, conv_created_at = 2 \<rparr>],
        messages = [],
        calls = [SelectConversationByPair 11 22, SelectConversationByPair 11 22,
                 InsertConversation 11 22, SelectConversationById 101,
                 InsertConversation 11 22] \<rparr>)"
  by (simp add: get_or_create_conversation_def rival_def empty_store_def run_store)

text \<open>
  C6, amended: when the lookup finds no conversation of the pair and, by the time of the
  insert, another caller has created one, the store's uniqueness constraint rejects the
  insert and the call surfaces that as the bare \<^verbatim>\<open>Exception\<close>
  ("Error getting or creating conversation"); it sends no further request (no re-fetch)
  and leaves the tables as the other caller left them.
\<close>

theorem get_or_create_conversation_conflict:
  assumes "a \<noteq> b"
    and "pair_rows a b s = []"
    and "pair_rows a b (meanwhile (called (SelectConversationByPair (min a b) (max a b)) s)) \<noteq> []"
  shows "fst (insert_conversation (min a b) (max a b) g
                (meanwhile (called (SelectConversationByPair (min a b) (max a b)) s)))
           = Inl UniqueViolation
    \<and> get_or_create_conversation meanwhile g a b s
         = (Inl (Exception ''Error getting or creating conversation''),
            called (InsertConversation (min a b) (max a b))
              (meanwhile (called (SelectConversationByPair (min a b) (max a b)) s)))"
  using assms
  by (simp add: get_or_create_conversation_unfold Let_def pair_rows_filter
      insert_conversation_unfold [OF canonical_order(2) [OF assms(1)]])

theorem get_or_create_conversation_conflict_witness:
  "(11::nat) \<noteq> 22 \<and> pair_rows 11 22 empty_store = []
   \<and> pair_rows 11 22 (rival (called (SelectConversationByPair 11 22) empty_store)) \<noteq> []
   \<and> fst (get_or_create_conversation rival \<lparr> new_id = 100, now = 3 \<rparr> 11 22 empty_store)
       = Inl (Exception ''Error getting or creating conversation'')"
proof -
  have 2: "pair_rows 11 22 empty_store = []"
    by (simp add: pair_rows_filter empty_store_def)
  have 3: "pair_rows 11 22 (rival (called (SelectConversationByPair 11 22) empty_store)) \<noteq> []"
    by (simp add: pair_rows_filter rival_def empty_store_def get_or_create_conversation_def
        run_store)
  from get_or_create_conversation_conflict
         [of 11 22 empty_store rival "\<lparr> new_id = 100, now = 3 \<rparr>"] 2 3
  show ?thesis by simp
qed

text \<open>
  C8: a user asking for a conversation with themselves gets
  \<^verbatim>\<open>InvalidParticipantError\<close>, and the store is returned as it was given: its tables and
  its record of requests are untouched, so no lookup, insert or other request was sent.
\<close>

theorem get_or_create_conversation_self:
  "get_or_create_conversation meanwhile g a a s = (Inl InvalidParticipantError, s)"
  by (simp add: get_or_create_conversation_def)


section \<open>Sending and listing messages, searching\<close>

lemma lookup_conversation_called [simp]:
  "lookup_conversation cid (called c s) = lookup_conversation cid s"
  by (simp add: lookup_conversation_def select_conversation_by_id_def)



lemma demo_encrypt: "encrypt_message demo_extern [] [0x68, 0x69] None = Inr [0x67, 0x69, 0x68]"
  by (simp add: encrypt_message_def get_fernet_key_def demo_extern_def utf8_encode_cp_def
      utf8_decode.simps seq_len_def strip_def py_isspace_def)

lemma sent_store_eq:
  "send_message demo_extern [] \<lparr> new_id = 200, now = 5 \<rparr> 100 11 [0x68, 0x69] conv_store
   = (Inr \<lparr> mr_id = 200, mr_conversation_id = 100, mr_sender_id = 11,
            mr_content_encrypted = [0x67, 0x69, 0x68], mr_content = [0x68, 0x69],
            mr_is_read = False, mr_created_at = 5 \<rparr>,
      \<lparr> conversations =
         [\<lparr> conv_id = 100, participant_1_id = 11, participant_2_id = 22,
            last_message_at = 3, conv_created_at = 3 \<rparr>],
        messages =
         [\<lparr> msg_id = 200, conversation_id = 100, sender_id = 11,
            content_encrypted = [0x67, 0x69, 0x68], is_read = False, created_at = 5 \<rparr>],
        calls = [SelectConversationById 100, InsertMessage 100 11 [0x67, 0x69, 0x68],
                 SelectProfile 11] \<rparr>)"
  by (simp add: send_message_def conv_store_def demo_encrypt select_conversation_by_id_def
      insert_message_def new_message_def select_profile_def called_def Let_def)

text \<open>
  C2: every successful send appends exactly one row to the message table, and the content
  field of that row is the result of \<^verbatim>\<open>encrypt_message\<close> on the plaintext. The only
  write request sent to the store carries that ciphertext; the plaintext appears in the
  response alone, beside the ciphertext.
\<close>

theorem send_message_stores_ciphertext:
  assumes "send_message X nonce g cid sender content s = (Inr resp, s')"
  shows "\<exists>token. encrypt_message X nonce content None = Inr token
           \<and> messages s' = messages s @ [new_message g cid sender token]
           \<and> content_encrypted (new_message g cid sender token) = token
           \<and> calls s' = calls s @ [SelectConversationById cid, InsertMessage cid sender token,
                                   SelectProfile sender]
           \<and> mr_content_encrypted resp = token
           \<and> mr_content resp = content"
  using assms
  by (auto simp: send_message_def select_conversation_by_id_def insert_message_def
      select_profile_def new_message_def Let_def
      split: list.splits sum.splits if_splits)

theorem send_message_stores_ciphertext_witness:
  "\<exists>token. encrypt_message demo_extern [] [0x68, 0x69] None = Inr token
     \<and> messages sent_store = messages conv_store @
           [new_message \<lparr> new_id = 200, now = 5 \<rparr> 100 11 token]
     \<and> token = [0x67, 0x69, 0x68]"
  using send_message_stores_ciphertext [OF sent_store_eq]
  by (auto simp: sent_store_def sent_store_eq demo_encrypt)

text \<open>
  C10: a search restricted to a conversation that does not exist, or of which the user is
  not a participant, returns the empty list (not an error) after the one lookup of the
  conversation.
\<close>

theorem search_messages_not_in_scope:
  assumes "case lookup_conversation cid s of None \<Rightarrow> True | Some conv \<Rightarrow> \<not> is_participant u conv"
  shows "search_messages X u q (Some cid) s = (Inr [], called (SelectConversationById cid) s)"
  using assms
  by (auto simp: search_messages_def lookup_conversation_def select_conversation_by_id_def
      is_participant_def split: list.splits)

theorem search_messages_not_in_scope_witness:
  "search_messages demo_extern 33 [0x68] (Some 100) conv_store
     = (Inr [], called (SelectConversationById 100) conv_store)
   \<and> search_messages demo_extern 11 [0x68] (Some 999) conv_store
     = (Inr [], called (SelectConversationById 999) conv_store)"
proof -
  have 1: "case lookup_conversation 100 conv_store of None \<Rightarrow> True
           | Some conv \<Rightarrow> \<not> is_participant 33 conv"
    by (simp add: lookup_conversation_def select_conversation_by_id_def conv_store_def
        is_participant_def)
  have 2: "case lookup_conversation 999 conv_store of None \<Rightarrow> True
           | Some conv \<Rightarrow> \<not> is_participant 11 conv"
    by (simp add: lookup_conversation_def select_conversation_by_id_def conv_store_def)
  from search_messages_not_in_scope [OF 1] search_messages_not_in_scope [OF 2]
  show ?thesis by simp
qed

lemma format_messages_eq:
  "format_messages X rows =
     map (\<lambda>m. format_message m (projr (decrypt_message X (content_encrypted m) None)))
       (filter (decrypts X) rows)"
  by (induction rows) (auto simp: decrypts_def split: sum.splits)

lemma get_conversation_messages_unfold:
  assumes "lookup_conversation cid s = Some conv" "is_participant u conv"
    "1 \<le> page" "1 \<le> page_size"
  shows "fst (get_conversation_messages X cid u page page_size s) =
     Inr (if page_rows cid page page_size s = []
          then \<lparr> lr_messages = [], lr_total = 0, lr_page = page, lr_page_size = page_size,
                 lr_has_more = False \<rparr>
          else \<lparr> lr_messages = format_messages X (page_rows cid page page_size s),
                 lr_total = int (fst (count_messages cid s)),
                 lr_page = page, lr_page_size = page_size,
                 lr_has_more = (page * page_size < int (fst (count_messages cid s))) \<rparr>)"
  using assms
  by (auto simp: get_conversation_messages_def lookup_conversation_def
      select_conversation_by_id_def is_participant_def count_messages_def page_rows_def
      select_messages_page_def Let_def split: list.splits)





text \<open>
  C7 at a page past the end: the conversation of \<open>corrupt_store\<close> holds two messages, and
  page 2 of size 50 is answered with a total of 0, where the claim (and the response
  model's "Total number of messages") has the count of stored messages, 2.
\<close>

theorem get_conversation_messages_total_past_the_end:
  "fst (count_messages 100 corrupt_store) = 2
   \<and> fst (get_conversation_messages demo_extern 100 11 2 50 corrupt_store)
       = Inr \<lparr> lr_messages = [], lr_total = 0, lr_page = 2, lr_page_size = 50,
               lr_has_more = False \<rparr>"
  by (simp add: get_conversation_messages_def count_messages_def select_conversation_by_id_def
      select_messages_page_def order_desc_def corrupt_store_def called_def Let_def)


section \<open>Pages of a listing\<close>

text \<open>
  On a page that holds rows, the total is the count of the conversation's stored messages
  and \<open>has_more\<close> is \<open>page * page_size < total\<close>; with 125 stored messages that all
  decrypt and pages of 50, pages 1 and 2 return 50 messages and page 3 returns 25.
\<close>

lemma length_order_desc [simp]: "length (order_desc f xs) = length xs"
  by (simp add: order_desc_def)

lemma length_page_rows:
  assumes "1 \<le> page" "1 \<le> page_size"
  shows "length (page_rows cid page page_size s) =
           min (nat page_size) (fst (count_messages cid s) - nat ((page - 1) * page_size))"
  using assms
  by (simp add: page_rows_def select_messages_page_def count_messages_def)

lemma get_conversation_messages_paging:
  assumes "lookup_conversation cid s = Some conv" "is_participant u conv"
    "1 \<le> page" "1 \<le> page_size" "page_rows cid page page_size s \<noteq> []"
  shows "\<exists>resp. fst (get_conversation_messages X cid u page page_size s) = Inr resp
           \<and> lr_total resp = int (fst (count_messages cid s))
           \<and> lr_has_more resp = (page * page_size < int (fst (count_messages cid s)))
           \<and> length (lr_messages resp) = length (filter (decrypts X) (page_rows cid page page_size s))"
  using assms(5)
  by (simp add: get_conversation_messages_unfold [OF assms(1-4)] format_messages_eq)

lemma get_conversation_messages_125:
  assumes "lookup_conversation cid s = Some conv" "is_participant u conv"
    and "fst (count_messages cid s) = 125"
    and "list_all (decrypts X) (fst (select_messages cid s))"
  shows "\<exists>r1 r2 r3.
           fst (get_conversation_messages X cid u 1 50 s) = Inr r1
           \<and> length (lr_messages r1) = 50 \<and> lr_has_more r1 \<and> lr_total r1 = 125
           \<and> fst (get_conversation_messages X cid u 2 50 s) = Inr r2
           \<and> length (lr_messages r2) = 50 \<and> lr_has_more r2 \<and> lr_total r2 = 125
           \<and> fst (get_conversation_messages X cid u 3 50 s) = Inr r3
           \<and> length (lr_messages r3) = 25 \<and> \<not> lr_has_more r3 \<and> lr_total r3 = 125"
proof -
  have all: "filter (decrypts X) (page_rows cid p 50 s) = page_rows cid p 50 s" for p
  proof -
    have "set (page_rows cid p 50 s) \<subseteq> set (fst (select_messages cid s))"
      by (auto simp: page_rows_def select_messages_page_def select_messages_def order_desc_def
          dest!: in_set_takeD in_set_dropD)
    with assms(4) show ?thesis
      by (auto simp: list_all_iff filter_id_conv)
  qed
  have l1: "length (page_rows cid 1 50 s) = 50"
    and l2: "length (page_rows cid 2 50 s) = 50"
    and l3: "length (page_rows cid 3 50 s) = 25"
    by (simp_all add: length_page_rows assms(3))
  from l1 have n1: "page_rows cid 1 50 s \<noteq> []" by auto
  from l2 have n2: "page_rows cid 2 50 s \<noteq> []" by auto
  from l3 have n3: "page_rows cid 3 50 s \<noteq> []" by auto
  from get_conversation_messages_paging [OF assms(1,2) _ _ n1, of X]
    get_conversation_messages_paging [OF assms(1,2) _ _ n2, of X]
    get_conversation_messages_paging [OF assms(1,2) _ _ n3, of X]
  show ?thesis
    by (auto simp: all l1 l2 l3 assms(3))
qed


section \<open>Marking messages read\<close>

lemma lookup_message_filter:
  "lookup_message mid s =
     (case filter (\<lambda>m. msg_id m = mid) (messages s) of [] \<Rightarrow> None | msg # _ \<Rightarrow> Some msg)"
  by (simp add: lookup_message_def select_message_by_id_def)

lemma filter_id_map:
  assumes "\<And>m. msg_id (f m) = msg_id m"
  shows "filter (\<lambda>m. msg_id m = k) (map f ms) = map f (filter (\<lambda>m. msg_id m = k) ms)"
  using assms by (induction ms) auto

lemma counted_preserved:
  assumes "messages s' = map f (messages s)"
    and "\<And>m. msg_id (f m) = msg_id m" and "\<And>m. sender_id (f m) = sender_id m"
  shows "counted u s' = counted u s"
proof
  fix k
  show "counted u s' k = counted u s k"
    using assms(2,3)
    by (simp add: counted_def lookup_message_filter assms(1) filter_id_map split: list.splits)
qed

lemma counted_called [simp]: "counted u (called c s) = counted u s"
  by (rule counted_preserved [where f = "\<lambda>m. m"]) simp_all

lemma mark_each_step:
  "mark_each u (k # rest) n s =
     (if counted u s k
      then mark_each u rest (n + 1)
             (called (UpdateMessageRead k)
               ((called (SelectMessageById k) s)
                  \<lparr>messages := map (\<lambda>m. if msg_id m = k then m\<lparr>is_read := True\<rparr> else m)
                                (messages s)\<rparr>))
      else mark_each u rest n (called (SelectMessageById k) s))"
proof (cases "filter (\<lambda>m. msg_id m = k) (messages s)")
  case Nil
  then show ?thesis
    by (simp add: select_message_by_id_def counted_def lookup_message_filter)
next
  case (Cons msg more)
  have "filter (\<lambda>m. msg_id m = k)
          (map (\<lambda>m. if msg_id m = k then m\<lparr>is_read := True\<rparr> else m) (messages s)) \<noteq> []"
    by (simp add: filter_id_map Cons)
  with Cons show ?thesis
    by (simp add: select_message_by_id_def counted_def lookup_message_filter
        update_message_read_def Let_def)
qed


lemma counted_after_update [simp]:
  "counted u (s'\<lparr>messages := map (\<lambda>m. if msg_id m = k then m\<lparr>is_read := True\<rparr> else m)
                            (messages s)\<rparr>) = counted u s"
  by (rule counted_preserved
        [where f = "\<lambda>m. if msg_id m = k then m\<lparr>is_read := True\<rparr> else m"]) simp_all

lemma mark_each_count:
  "fst (mark_each u ids n s) = n + length (filter (counted u s) ids)"
proof (induction ids arbitrary: n s)
  case Nil
  then show ?case by simp
next
  case (Cons k rest)
  show ?case
    by (simp add: mark_each_step Cons.IH del: mark_each.simps)
qed

lemma mark_each_messages:
  "messages (snd (mark_each u ids n s)) =
     map (\<lambda>m. if msg_id m \<in> set ids \<and> counted u s (msg_id m) then m\<lparr>is_read := True\<rparr> else m)
       (messages s)"
proof (induction ids arbitrary: n s)
  case Nil
  then show ?case by simp
next
  case (Cons k rest)
  show ?case
  proof (cases "counted u s k")
    case True
    then show ?thesis
      by (simp add: mark_each_step Cons.IH comp_def del: mark_each.simps) auto
  next
    case False
    then show ?thesis
      by (simp add: mark_each_step Cons.IH comp_def del: mark_each.simps) auto
  qed
qed

lemma mark_each_conversations:
  "conversations (snd (mark_each u ids n s)) = conversations s"
proof (induction ids arbitrary: n s)
  case Nil
  then show ?case by simp
next
  case (Cons k rest)
  show ?case
    by (simp add: mark_each_step Cons.IH del: mark_each.simps)
qed

lemma mark_messages_as_read_count:
  "fst (mark_messages_as_read u ids s) = Inr (length (filter (counted u s) ids))"
  using mark_each_count [of u ids 0 s]
  by (cases "mark_each u ids 0 s") (simp add: mark_messages_as_read_def)

lemma mark_messages_as_read_messages:
  "messages (snd (mark_messages_as_read u ids s)) =
     map (\<lambda>m. if msg_id m \<in> set ids \<and> counted u s (msg_id m) then m\<lparr>is_read := True\<rparr> else m)
       (messages s)"
  using mark_each_messages [of u ids 0 s]
  by (cases "mark_each u ids 0 s") (simp add: mark_messages_as_read_def)

lemma mark_messages_as_read_conversations:
  "conversations (snd (mark_messages_as_read u ids s)) = conversations s"
  using mark_each_conversations [of u ids 0 s]
  by (cases "mark_each u ids 0 s") (simp add: mark_messages_as_read_def)

lemma sent_store_literal:
  "sent_store =
      \<lparr> conversations =
         [\<lparr> conv_id = 100, participant_1_id = 11, participant_2_id = 22,
            last_message_at = 3, conv_created_at = 3 \<rparr>],
        messages =
         [\<lparr> msg_id = 200, conversation_id = 100, sender_id = 11,
            content_encrypted = [0x67, 0x69, 0x68], is_read = False, created_at = 5 \<rparr>],
        calls = [SelectConversationById 100, InsertMessage 100 11 [0x67, 0x69, 0x68],
                 SelectProfile 11] \<rparr>"
  by (simp add: sent_store_def sent_store_eq)

lemma counted_sent_store:
  "counted 33 sent_store 200" "counted 22 sent_store 200" "\<not> counted 11 sent_store 200"
  by (simp_all add: counted_def lookup_message_filter sent_store_literal)

lemma sent_messages:
  "messages sent_store =
      [\<lparr> msg_id = 200, conversation_id = 100, sender_id = 11,
         content_encrypted = [0x67, 0x69, 0x68], is_read = False, created_at = 5 \<rparr>]"
  by (simp add: sent_store_literal)

text \<open>
  C9: \<^verbatim>\<open>mark_messages_as_read\<close> never looks at a conversation. It returns the number of
  listed keys that name an existing message whose stored sender is not the caller, sets
  the read flag of exactly those messages, and cannot raise \<^verbatim>\<open>UnauthorizedError\<close>; no
  condition on the caller taking part in the conversation appears.
\<close>

theorem mark_messages_as_read_no_participancy_check:
  "fst (mark_messages_as_read u ids s) = Inr (length (filter (counted u s) ids))
   \<and> messages (snd (mark_messages_as_read u ids s)) =
       map (\<lambda>m. if msg_id m \<in> set ids \<and> counted u s (msg_id m) then m\<lparr>is_read := True\<rparr> else m)
         (messages s)
   \<and> conversations (snd (mark_messages_as_read u ids s)) = conversations s
   \<and> fst (mark_messages_as_read u ids s) \<noteq> Inl UnauthorizedError"
  by (simp add: mark_messages_as_read_count mark_messages_as_read_messages
      mark_messages_as_read_conversations)

theorem mark_messages_as_read_no_participancy_check_witness:
  "map (is_participant 33) (conversations sent_store) = [False]
   \<and> fst (mark_messages_as_read 33 [200] sent_store) = Inr 1
   \<and> map is_read (messages sent_store) = [False]
   \<and> map is_read (messages (snd (mark_messages_as_read 33 [200] sent_store))) = [True]"
proof -
  have c: "conversations sent_store =
      [\<lparr> conv_id = 100, participant_1_id = 11, participant_2_id = 22,
         last_message_at = 3, conv_created_at = 3 \<rparr>]"
    and m: "messages sent_store =
      [\<lparr> msg_id = 200, conversation_id = 100, sender_id = 11,
         content_encrypted = [0x67, 0x69, 0x68], is_read = False, created_at = 5 \<rparr>]"
    by (simp_all add: sent_store_literal)
  from mark_messages_as_read_no_participancy_check [of 33 "[200]" sent_store]
  show ?thesis
    by (simp add: counted_sent_store c m is_participant_def)
qed

text \<open>
  C3 on the claim's own scenario: user 11 has sent "hi" (message 200) to user 22. The
  sender's call returns 0 and the recipient's call returns 1 and sets the flag, as
  claimed; the recipient's second, identical call returns 1 again, where the claim has 0:
  the update is not restricted to unread rows, so an already read message is written and
  counted once more.
\<close>

theorem mark_messages_as_read_counts_read_message_again:
  "fst (mark_messages_as_read 11 [200] sent_store) = Inr 0
   \<and> fst (mark_messages_as_read 22 [200] sent_store) = Inr 1
   \<and> map is_read (messages (snd (mark_messages_as_read 22 [200] sent_store))) = [True]
   \<and> fst (mark_messages_as_read 22 [200] (snd (mark_messages_as_read 22 [200] sent_store)))
       = Inr 1"
proof -
  let ?s = "snd (mark_messages_as_read 22 [200] sent_store)"
  have m: "messages ?s =
      [\<lparr> msg_id = 200, conversation_id = 100, sender_id = 11,
         content_encrypted = [0x67, 0x69, 0x68], is_read = True, created_at = 5 \<rparr>]"
    by (simp add: mark_messages_as_read_messages counted_sent_store sent_messages)
  have "counted 22 ?s 200"
    by (simp add: counted_def lookup_message_filter m)
  then show ?thesis
    by (simp add: mark_messages_as_read_count counted_sent_store m)
qed

end
